theory Spec2Isabelle
  imports Main "HOL-Library.Sublist"
begin

section \<open>Text\<close>

text \<open>
  A Python \<open>str\<close> is a sequence of Unicode code points. A code point is modelled as a
  natural number and a text as a list of them, so that the theorems below speak about
  every text the script can read, not only about 8-bit characters. The literals of the
  script are all ASCII; \<open>str\<close> embeds an Isabelle string literal as the text with the
  same code points.
\<close>

type_synonym codepoint = nat
type_synonym pystr = "codepoint list"

definition str :: "string \<Rightarrow> pystr" where
  "str cs = map of_char cs"

section \<open>Literal replacement\<close>

text \<open>
  Python's \<open>s.replace(old, new)\<close>: every occurrence of \<open>old\<close> is replaced, scanning
  from the left, and the scan resumes right after the occurrence just replaced, so the
  occurrences replaced do not overlap. With an empty \<open>old\<close>, \<open>new\<close> is inserted
  before every code point and at the end.
\<close>

function str_replace :: "pystr \<Rightarrow> pystr \<Rightarrow> pystr \<Rightarrow> pystr" where
  "str_replace old new s =
     (if old = [] then new @ concat (map (\<lambda>c. c # new) s)
      else if prefix old s then new @ str_replace old new (drop (length old) s)
      else (case s of [] \<Rightarrow> [] | c # cs \<Rightarrow> c # str_replace old new cs))"
  by pat_completeness auto
termination
  by (relation "measure (\<lambda>(old, new, s). length s)") (auto simp: prefix_def)

declare str_replace.simps [simp del]

section \<open>The fragment of Python's regular expressions used by \<open>re.sub\<close>\<close>

text \<open>
  The script calls \<open>re.sub(old, new, content)\<close>, so each \<open>old\<close> is compiled as a
  regular expression and each \<open>new\<close> is read as a replacement template. The model
  follows the \<open>re\<close> module on the following fragment of its syntax: ordinary code
  points, \<open>.\<close>, the greedy quantifiers \<open>*\<close>, \<open>+\<close> and \<open>?\<close> on a single
  code point or \<open>.\<close>, and alternation \<open>|\<close>. The special characters of the parser
  are those of \<open>re\<close> (its \<open>SPECIAL_CHARS\<close>: the dot, the backslash, the opening bracket and brace,
  both parentheses, \<open>*\<close>, \<open>+\<close>, \<open>?\<close>, \<open>^\<close>, \<open>$\<close> and \<open>|\<close>); a pattern that
  uses one of the others, or a template with a backslash, is outside the fragment and
  the model answers \<open>Unsupported\<close> for it.
\<close>

datatype re_error = NothingToRepeat | MultipleRepeat | Unsupported

datatype atom = Lit codepoint | AnyChar

datatype item = One atom | Opt atom | Star atom | Plus atom

type_synonym branch = "item list"
type_synonym regex = "branch list"

definition SPECIAL_CHARS :: pystr where
  "SPECIAL_CHARS = str [CHR ''.'', CHR 0x5C, CHR ''['', CHR ''{'', CHR ''('', CHR '')'',
     CHR ''*'', CHR ''+'', CHR ''?'', CHR ''^'', CHR ''$'', CHR ''|'']"

text \<open>
  \<open>quantify q acc\<close> applies the quantifier \<open>q\<close> to the last item parsed so far
  (\<open>acc\<close> holds the items of the current branch in reverse): \<open>re\<close> raises
  "nothing to repeat" when there is none and "multiple repeat" when it is itself a
  repetition.
\<close>

definition quantify :: "(atom \<Rightarrow> item) \<Rightarrow> item list \<Rightarrow> re_error + item list" where
  "quantify q acc =
     (case acc of
        [] \<Rightarrow> Inl NothingToRepeat
      | One a # rest \<Rightarrow> Inr (q a # rest)
      | _ # rest \<Rightarrow> Inl MultipleRepeat)"

text \<open>
  \<open>parse_branches acc done cs\<close> reads the pattern left to right; \<open>acc\<close> is the
  current branch reversed, \<open>done\<close> the finished branches reversed.
\<close>

fun parse_branches :: "item list \<Rightarrow> branch list \<Rightarrow> pystr \<Rightarrow> re_error + regex" where
  "parse_branches acc fin [] = Inr (rev (rev acc # fin))"
| "parse_branches acc fin (c # cs) =
     (if c \<notin> set SPECIAL_CHARS then parse_branches (One (Lit c) # acc) fin cs
      else if c = of_char CHR ''.'' then parse_branches (One AnyChar # acc) fin cs
      else if c = of_char CHR ''|'' then parse_branches [] (rev acc # fin) cs
      else if c = of_char CHR ''*'' \<or> c = of_char CHR ''+'' \<or> c = of_char CHR ''?'' then
        (case quantify (if c = of_char CHR ''*'' then Star
                        else if c = of_char CHR ''+'' then Plus else Opt) acc of
           Inl e \<Rightarrow> Inl e
         | Inr acc' \<Rightarrow>
             (case cs of
                [] \<Rightarrow> parse_branches acc' fin cs
              | d # ds \<Rightarrow>
                  if d = of_char CHR ''?'' \<or> d = of_char CHR ''+'' then Inl Unsupported
                  else parse_branches acc' fin cs))
      else Inl Unsupported)"

definition re_compile :: "pystr \<Rightarrow> re_error + regex" where
  "re_compile pattern = parse_branches [] [] pattern"

subsection \<open>Backtracking matcher\<close>

text \<open>
  \<open>.\<close> matches any code point except a newline (no flag is given).
\<close>

fun atom_matches :: "atom \<Rightarrow> codepoint \<Rightarrow> bool" where
  "atom_matches (Lit a) c = (c = a)"
| "atom_matches AnyChar c = (c \<noteq> 10)"

text \<open>
  \<open>match_items is s\<close> lists the lengths of the matches of the branch \<open>is\<close> at the
  start of \<open>s\<close>, in the order in which the backtracking engine finds them: a greedy
  repetition tries the longest run first.
\<close>

definition run_length :: "atom \<Rightarrow> pystr \<Rightarrow> nat" where
  "run_length a s = length (takeWhile (atom_matches a) s)"

fun match_items :: "item list \<Rightarrow> pystr \<Rightarrow> nat list" where
  "match_items [] s = [0]"
| "match_items (One a # is) s =
     (case s of
        [] \<Rightarrow> []
      | c # cs \<Rightarrow> if atom_matches a c then map Suc (match_items is cs) else [])"
| "match_items (Opt a # is) s =
     (case s of
        [] \<Rightarrow> match_items is s
      | c # cs \<Rightarrow>
          (if atom_matches a c then map Suc (match_items is cs) else []) @ match_items is s)"
| "match_items (Star a # is) s =
     concat (map (\<lambda>k. map (\<lambda>n. k + n) (match_items is (drop k s)))
               (rev [0 ..< Suc (run_length a s)]))"
| "match_items (Plus a # is) s =
     concat (map (\<lambda>k. map (\<lambda>n. k + n) (match_items is (drop k s)))
               (rev [1 ..< Suc (run_length a s)]))"

definition match_regex :: "regex \<Rightarrow> pystr \<Rightarrow> nat list" where
  "match_regex r s = concat (map (\<lambda>b. match_items b s) r)"

text \<open>
  The match the engine reports at a position is the first one in backtracking order;
  with \<open>must_advance\<close> set, an empty match is refused and the engine backtracks to the
  first non-empty one.
\<close>

definition match_at :: "regex \<Rightarrow> bool \<Rightarrow> pystr \<Rightarrow> nat option" where
  "match_at r must_advance s =
     (case filter (\<lambda>n. \<not> must_advance \<or> 0 < n) (match_regex r s) of
        [] \<Rightarrow> None
      | n # ns \<Rightarrow> Some n)"

text \<open>
  \<open>search r must_advance s\<close> tries every start position from the left; the result is
  the offset of the match in \<open>s\<close> and its length. \<open>must_advance\<close> only constrains the
  attempt at the first position.
\<close>

fun search :: "regex \<Rightarrow> bool \<Rightarrow> pystr \<Rightarrow> (nat \<times> nat) option" where
  "search r must_advance s =
     (case match_at r must_advance s of
        Some n \<Rightarrow> Some (0, n)
      | None \<Rightarrow>
          (case s of
             [] \<Rightarrow> None
           | c # cs \<Rightarrow> map_option (\<lambda>(b, n). (Suc b, n)) (search r False cs)))"

declare search.simps [simp del]

lemma set_concat_shift:
  "set (concat (map (\<lambda>k. map (\<lambda>n. k + n) (f k)) ks)) =
     {k + m | k m. k \<in> set ks \<and> m \<in> set (f k)}"
  by auto

lemma match_items_le: "n \<in> set (match_items is s) \<Longrightarrow> n \<le> length s"
proof (induction "is" s arbitrary: n rule: match_items.induct)
  case (1 s)
  then show ?case by simp
next
  case (2 a "is" s)
  then show ?case by (cases s) (auto split: if_splits)
next
  case (3 a "is" s)
  then show ?case by (cases s) (auto split: if_splits)
next
  case (4 a "is" s)
  from "4.prems" obtain k m where k: "k \<in> set (rev [0 ..< Suc (run_length a s)])"
    and m: "m \<in> set (match_items is (drop k s))" and n: "n = k + m"
    unfolding match_items.simps set_concat_shift by blast
  have "k \<le> length s"
    using k length_takeWhile_le [of "atom_matches a" s] by (auto simp: run_length_def)
  moreover have "m \<le> length (drop k s)"
    using "4.IH" [OF k m] .
  ultimately show ?case using n by simp
next
  case (5 a "is" s)
  from "5.prems" obtain k m where k: "k \<in> set (rev [1 ..< Suc (run_length a s)])"
    and m: "m \<in> set (match_items is (drop k s))" and n: "n = k + m"
    unfolding match_items.simps set_concat_shift by blast
  have "k \<le> length s"
    using k length_takeWhile_le [of "atom_matches a" s] by (auto simp: run_length_def)
  moreover have "m \<le> length (drop k s)"
    using "5.IH" [OF k m] .
  ultimately show ?case using n by simp
qed

lemma match_at_SomeD:
  assumes "match_at r must_advance s = Some n"
  shows "n \<le> length s" and "must_advance \<Longrightarrow> 0 < n"
proof -
  from assms obtain ns
    where f: "filter (\<lambda>n. \<not> must_advance \<or> 0 < n) (match_regex r s) = n # ns"
    by (auto simp: match_at_def split: list.splits)
  then have "n \<in> set (filter (\<lambda>n. \<not> must_advance \<or> 0 < n) (match_regex r s))"
    by simp
  then have mem: "n \<in> set (match_regex r s)" and adv: "\<not> must_advance \<or> 0 < n"
    by auto
  from mem show "n \<le> length s"
    by (auto simp: match_regex_def dest: match_items_le)
  from adv show "must_advance \<Longrightarrow> 0 < n" by simp
qed

lemma search_SomeD:
  "search r must_advance s = Some (b, n) \<Longrightarrow>
     b + n \<le> length s \<and> (must_advance \<longrightarrow> 0 < b + n)"
proof (induction s arbitrary: must_advance b n)
  case Nil
  then show ?case
    by (auto simp: search.simps [of r must_advance "[]"] split: option.splits
          dest: match_at_SomeD)
next
  case (Cons c cs)
  show ?case
  proof (cases "match_at r must_advance (c # cs)")
    case (Some m)
    with Cons.prems have "b = 0" "n = m"
      by (auto simp: search.simps [of r must_advance "c # cs"])
    with match_at_SomeD [OF Some] show ?thesis by auto
  next
    case None
    with Cons.prems obtain b' where s': "search r False cs = Some (b', n)" and b: "b = Suc b'"
      by (auto simp: search.simps [of r must_advance "c # cs"])
    from Cons.IH [OF s'] b show ?thesis by simp
  qed
qed

subsection \<open>Substitution\<close>

text \<open>
  The loop of \<open>re.sub\<close> (with \<open>count = 0\<close>, as of Python 3.7): search from the
  end of the previous match, copy the text before the match, append the replacement and
  go on after the match; after an empty match the next one must advance. What is left
  after the last match is copied.
\<close>

function sub_loop :: "regex \<Rightarrow> pystr \<Rightarrow> bool \<Rightarrow> pystr \<Rightarrow> pystr" where
  "sub_loop r repl must_advance s =
     (case search r must_advance s of
        None \<Rightarrow> s
      | Some (b, n) \<Rightarrow> take b s @ repl @ sub_loop r repl (n = 0) (drop (b + n) s))"
  by pat_completeness auto
termination
proof (relation "measure (\<lambda>(r, repl, must_advance, s).
                   2 * length s + (if must_advance then 0 else 1))", goal_cases)
  case 1
  show ?case by simp
next
  case (2 r repl must_advance s x b n)
  then have "search r must_advance s = Some (b, n)" by simp
  from search_SomeD [OF this] show ?case by auto
qed

declare sub_loop.simps [simp del]

text \<open>
  A replacement template without a backslash stands for itself; escapes and group
  references are outside the fragment.
\<close>

definition expand_template :: "pystr \<Rightarrow> re_error + pystr" where
  "expand_template repl =
     (if of_char (CHR 0x5C) \<in> set repl then Inl Unsupported else Inr repl)"

definition re_sub :: "pystr \<Rightarrow> pystr \<Rightarrow> pystr \<Rightarrow> re_error + pystr" where
  "re_sub pattern repl string =
     (case re_compile pattern of
        Inl e \<Rightarrow> Inl e
      | Inr r \<Rightarrow>
          (case expand_template repl of
             Inl e \<Rightarrow> Inl e
           | Inr t \<Rightarrow> Inr (sub_loop r t False string)))"

section \<open>The script\<close>

subsection \<open>The rules\<close>

text \<open>
  \<open>REPLACEMENTS\<close>, in the order of the source. Every pattern is a raw string without
  a backslash, so the raw-string prefix makes no difference.
\<close>

definition REPLACEMENTS :: "(pystr \<times> pystr) list" where
  \<open>REPLACEMENTS =
    [
     (str ''className="min-h-screen bg-gray-50"'',
      str ''className="min-h-screen bg-black text-white"''),
     (str ''<Card className="hover:shadow-lg'',
      str ''<Card className="bg-white/5 backdrop-blur-sm border-white/10 hover:shadow-lg''),
     (str ''<Card>'',
      str ''<Card className="bg-white/5 backdrop-blur-sm border-white/10">''),
     (str ''<Card className="'',
      str ''<Card className="bg-white/5 backdrop-blur-sm border-white/10 ''),
     (str ''border-gray-100'',
      str ''border-white/10''),
     (str ''border-gray-200'',
      str ''border-white/10''),
     (str ''divide-gray-100'',
      str ''divide-white/10''),
     (str ''divide-gray-200'',
      str ''divide-white/10''),
     (str ''bg-gray-50'',
      str ''bg-white/5''),
     (str ''bg-gray-100'',
      str ''bg-white/5''),
     (str ''bg-white'',
      str ''bg-white/5''),
     (str ''bg-gray-200'',
      str ''bg-white/10''),
     (str ''text-gray-900'',
      str ''text-white''),
     (str ''text-gray-700'',
      str ''text-gray-400''),
     (str ''text-gray-600'',
      str ''text-gray-400''),
     (str ''hover:bg-gray-50'',
      str ''hover:bg-white/5 transition-colors''),
     (str ''hover:bg-gray-100'',
      str ''hover:bg-white/10 transition-colors''),
     (str ''className="bg-gray-50"'',
      str ''className="bg-white/5"''),
     (str ''text-gray-500 uppercase'',
      str ''text-gray-400 uppercase'')
    ]\<close>

text \<open>
  The loop \<open>for old, new in REPLACEMENTS: content = re.sub(old, new, content)\<close>, for
  any list of rules. An error of \<open>re.sub\<close> ends the loop, as the exception does.
\<close>

fun apply_replacements :: "(pystr \<times> pystr) list \<Rightarrow> pystr \<Rightarrow> re_error + pystr" where
  "apply_replacements [] content = Inr content"
| "apply_replacements ((old, new) # rules) content =
     (case re_sub old new content of
        Inl e \<Rightarrow> Inl e
      | Inr content' \<Rightarrow> apply_replacements rules content')"

subsection \<open>Files\<close>

text \<open>
  A file holds either a text (what \<open>f.read()\<close> returns for it in text mode with the
  UTF-8 codec) or bytes that do not decode. It may be unreadable, and opening it for
  writing may be refused (\<open>WriteDenied\<close>) or the write may fail after the file has
  been truncated (\<open>WriteFails k\<close>), leaving only the first \<open>k\<close> code points of what
  was written. A path that is not in the map does not exist.
\<close>

datatype py_error = FileNotFoundError | PermissionError | UnicodeDecodeError | OSError
  | ReError re_error | UnicodeEncodeError

datatype file_data = Text pystr | Undecodable

datatype write_mode = WriteOk | WriteDenied | WriteFails nat

record disk_file =
  data :: file_data
  readable :: bool
  wmode :: write_mode

type_synonym filesystem = "string \<rightharpoonup> disk_file"

text \<open>\<open>with open(filepath, 'r', encoding='utf-8') as f: content = f.read()\<close>\<close>

definition read_text :: "filesystem \<Rightarrow> string \<Rightarrow> py_error + pystr" where
  "read_text fs filepath =
     (case fs filepath of
        None \<Rightarrow> Inl FileNotFoundError
      | Some f \<Rightarrow>
          if \<not> readable f then Inl PermissionError
          else (case data f of
                  Undecodable \<Rightarrow> Inl UnicodeDecodeError
                | Text content \<Rightarrow> Inr content))"

text \<open>
  \<open>with open(filepath, 'w', encoding='utf-8') as f: f.write(content)\<close>: the new
  file system, and the exception raised, if any.
\<close>

definition write_text :: "filesystem \<Rightarrow> string \<Rightarrow> pystr \<Rightarrow> filesystem \<times> py_error option" where
  "write_text fs filepath content =
     (case fs filepath of
        None \<Rightarrow>
          (fs(filepath \<mapsto> \<lparr>data = Text content, readable = True, wmode = WriteOk\<rparr>), None)
      | Some f \<Rightarrow>
          (case wmode f of
             WriteOk \<Rightarrow> (fs(filepath \<mapsto> f\<lparr>data := Text content\<rparr>), None)
           | WriteDenied \<Rightarrow> (fs, Some PermissionError)
           | WriteFails k \<Rightarrow> (fs(filepath \<mapsto> f\<lparr>data := Text (take k content)\<rparr>), Some OSError)))"

subsection \<open>Standard output\<close>

text \<open>
  The lines the script prints, one constructor for each \<open>print\<close> of the source.
\<close>

datatype line =
    Processando string
  | AtualizadoComSucesso string
  | JaEstaAtualizado string
  | ErroAoProcessar string py_error
  | AplicandoTemaEscuro
  | Concluido nat

text \<open>
  \<open>print\<close> encodes the line with the encoding of standard output and raises
  \<open>UnicodeEncodeError\<close>, printing nothing, when the encoding lacks one of its code
  points. An encoding is modelled by the code points it has, and \<open>line_text\<close> gives the
  code points of each line: the literal of the source with the path and the counter in
  their places. Three of the literals hold a check mark (U+2713) or a ballot cross
  (U+2717), three hold an accented letter (U+00E1, U+00ED). The message of the exception
  at the end of the error line is left out of the text: it is ASCII apart from the path
  it may quote, which the line holds anyway.
\<close>

type_synonym encoding = "codepoint \<Rightarrow> bool"

definition utf_8 :: encoding where
  "utf_8 c = True"

definition latin_1 :: encoding where
  "latin_1 c = (c < 256)"

fun decimal :: "nat \<Rightarrow> pystr" where
  "decimal n = (if n < 10 then [48 + n] else decimal (n div 10) @ [48 + n mod 10])"

declare decimal.simps [simp del]

fun line_text :: "line \<Rightarrow> pystr" where
  "line_text (Processando filepath) =
     str ''Processando '' @ str filepath @ str ''...'' @ [10]"
| "line_text (AtualizadoComSucesso filepath) =
     str ''  '' @ [0x2713] @ str '' '' @ str filepath @ str '' atualizado com sucesso!'' @ [10]"
| "line_text (JaEstaAtualizado filepath) =
     str ''  - '' @ str filepath @ str '' j'' @ [0xE1] @ str '' est'' @ [0xE1]
       @ str '' atualizado'' @ [10]"
| "line_text (ErroAoProcessar filepath e) =
     str ''  '' @ [0x2717] @ str '' Erro ao processar '' @ str filepath @ str '': '' @ [10]"
| "line_text AplicandoTemaEscuro =
     str ''Aplicando tema escuro nas p'' @ [0xE1] @ str ''ginas...'' @ [10, 10]"
| "line_text (Concluido updated) =
     [10, 0x2713] @ str '' Conclu'' @ [0xED] @ str ''do! '' @ decimal updated
       @ str '' arquivo(s) atualizado(s).'' @ [10]"

definition can_print :: "encoding \<Rightarrow> line \<Rightarrow> bool" where
  "can_print enc l = list_all enc (line_text l)"

subsection \<open>\<open>apply_dark_theme\<close>\<close>

text \<open>
  The \<open>try\<close> block: the boolean it returns or the exception it raises, the file system
  it leaves and the line it printed. A \<open>print\<close> that raises does so inside the block.
\<close>

definition try_block :: "encoding \<Rightarrow> filesystem \<Rightarrow> string
    \<Rightarrow> (py_error + bool) \<times> filesystem \<times> line list" where
  "try_block enc fs filepath =
     (case read_text fs filepath of
        Inl e \<Rightarrow> (Inl e, fs, [])
      | Inr original_content \<Rightarrow>
          (case apply_replacements REPLACEMENTS original_content of
             Inl e \<Rightarrow> (Inl (ReError e), fs, [])
           | Inr content \<Rightarrow>
               if content \<noteq> original_content then
                 (case write_text fs filepath content of
                    (fs', Some e) \<Rightarrow> (Inl e, fs', [])
                  | (fs', None) \<Rightarrow>
                      if can_print enc (AtualizadoComSucesso filepath)
                      then (Inr True, fs', [AtualizadoComSucesso filepath])
                      else (Inl UnicodeEncodeError, fs', []))
               else if can_print enc (JaEstaAtualizado filepath)
                 then (Inr False, fs, [JaEstaAtualizado filepath])
                 else (Inl UnicodeEncodeError, fs, [])))"

text \<open>
  The function: the first \<open>print\<close> stands before the \<open>try\<close>, so its exception leaves
  the function at once. An exception of the block is caught by \<open>except Exception\<close>,
  whose own \<open>print\<close> is not guarded: when it raises, the exception leaves the function
  and no boolean is returned. The result is the boolean returned (\<open>Inr\<close>) or the
  exception that leaves the function (\<open>Inl\<close>), the file system and the lines printed.
\<close>

definition apply_dark_theme :: "encoding \<Rightarrow> filesystem \<Rightarrow> string
    \<Rightarrow> (py_error + bool) \<times> filesystem \<times> line list" where
  "apply_dark_theme enc fs filepath =
     (if \<not> can_print enc (Processando filepath) then (Inl UnicodeEncodeError, fs, [])
      else
        (case try_block enc fs filepath of
           (Inr b, fs', printed) \<Rightarrow> (Inr b, fs', Processando filepath # printed)
         | (Inl e, fs', printed) \<Rightarrow>
             if can_print enc (ErroAoProcessar filepath e)
             then (Inr False, fs', Processando filepath # printed @ [ErroAoProcessar filepath e])
             else (Inl UnicodeEncodeError, fs', Processando filepath # printed)))"

subsection \<open>The batch driver\<close>

definition pages_path :: "string \<Rightarrow> string" where
  "pages_path name =
     ''c:'' @ [CHR 0x5C] @ ''Projeto barbearia'' @ [CHR 0x5C] @ ''src'' @ [CHR 0x5C]
       @ ''pages'' @ [CHR 0x5C] @ name"

definition files_to_process :: "string list" where
  "files_to_process =
    [
     pages_path ''DashboardVendas.tsx'',
     pages_path ''DashboardProfissionais.tsx'',
     pages_path ''DashboardServicos.tsx'',
     pages_path ''DashboardClientes.tsx'',
     pages_path ''DashboardAgendamentos.tsx'',
     pages_path ''Agendamentos.tsx'',
     pages_path ''Servicos.tsx'',
     pages_path ''Profissionais.tsx''
    ]"

text \<open>
  The loop over the targets, with the counter \<open>updated\<close> and the lines printed so far.
  An exception that leaves \<open>apply_dark_theme\<close> is caught nowhere: it ends the loop and
  the script. The result is that exception, if any, the file system, the counter and the
  lines printed.
\<close>

fun process_files :: "encoding \<Rightarrow> string list \<Rightarrow> filesystem \<Rightarrow> nat \<Rightarrow> line list
    \<Rightarrow> py_error option \<times> filesystem \<times> nat \<times> line list" where
  "process_files enc [] fs updated out = (None, fs, updated, out)"
| "process_files enc (filepath # rest) fs updated out =
     (case apply_dark_theme enc fs filepath of
        (Inl e, fs', printed) \<Rightarrow> (Some e, fs', updated, out @ printed)
      | (Inr True, fs', printed) \<Rightarrow> process_files enc rest fs' (updated + 1) (out @ printed)
      | (Inr False, fs', printed) \<Rightarrow> process_files enc rest fs' updated (out @ printed))"

definition run_batch :: "encoding \<Rightarrow> string list \<Rightarrow> filesystem
    \<Rightarrow> py_error option \<times> filesystem \<times> nat \<times> line list" where
  "run_batch enc files fs =
     (if \<not> can_print enc AplicandoTemaEscuro then (Some UnicodeEncodeError, fs, 0, [])
      else
        (case process_files enc files fs 0 [AplicandoTemaEscuro] of
           (Some e, fs', updated, out) \<Rightarrow> (Some e, fs', updated, out)
         | (None, fs', updated, out) \<Rightarrow>
             if can_print enc (Concluido updated)
             then (None, fs', updated, out @ [Concluido updated])
             else (Some UnicodeEncodeError, fs', updated, out)))"

definition main :: "encoding \<Rightarrow> filesystem \<Rightarrow> py_error option \<times> filesystem \<times> nat \<times> line list" where
  "main enc fs = run_batch enc files_to_process fs"

section \<open>Specification of one pass\<close>

text \<open>
  Plain literal replacement of every rule in turn, with \<open>str.replace\<close> in place of
  \<open>re.sub\<close>.
\<close>

fun literal_pass :: "(pystr \<times> pystr) list \<Rightarrow> pystr \<Rightarrow> pystr" where
  "literal_pass [] content = content"
| "literal_pass ((old, new) # rules) content = literal_pass rules (str_replace old new content)"

text \<open>
  The substitution of one rule with a non-empty pattern, stated on occurrences: a text
  without an occurrence of \<open>old\<close> is left as it is; otherwise the leftmost occurrence
  is replaced and the substitution goes on in the text after it, so the occurrences
  replaced do not overlap.
  One pass applies the rules once each, in list order, each to the result of the one
  before.
\<close>

inductive replaces_all :: "pystr \<Rightarrow> pystr \<Rightarrow> pystr \<Rightarrow> pystr \<Rightarrow> bool"
  for old new :: pystr where
  no_occurrence: "\<not> sublist old s \<Longrightarrow> replaces_all old new s s"
| leftmost_occurrence:
    "(\<And>a' b'. a @ old @ b = a' @ old @ b' \<Longrightarrow> length a \<le> length a') \<Longrightarrow>
     replaces_all old new b t \<Longrightarrow>
     replaces_all old new (a @ old @ b) (a @ new @ t)"

inductive one_pass :: "(pystr \<times> pystr) list \<Rightarrow> pystr \<Rightarrow> pystr \<Rightarrow> bool" where
  pass_done: "one_pass [] s s"
| pass_rule: "replaces_all old new s u \<Longrightarrow> one_pass rules u t \<Longrightarrow> one_pass ((old, new) # rules) s t"

text \<open>
  A rule is plain when its pattern is not empty and has no special character and its
  replacement has no backslash; \<open>lits\<close> is the regular expression of a plain pattern.
\<close>

definition plain_rule :: "pystr \<times> pystr \<Rightarrow> bool" where
  "plain_rule rule =
     (case rule of (old, new) \<Rightarrow>
        old \<noteq> [] \<and> list_all (\<lambda>c. c \<notin> set SPECIAL_CHARS) old \<and> of_char (CHR 0x5C) \<notin> set new)"

definition lits :: "pystr \<Rightarrow> item list" where
  "lits p = map (\<lambda>c. One (Lit c)) p"

text \<open>
  The result of processing one file, as the specification names it, read off the line
  the script prints for it; \<open>results\<close> and \<open>targets\<close> collect, from the lines
  printed by a run, the results reported and the files the script started on.
\<close>

datatype processing_result = Updated | Unchanged | Failed py_error

fun line_result :: "line \<Rightarrow> processing_result option" where
  "line_result (AtualizadoComSucesso filepath) = Some Updated"
| "line_result (JaEstaAtualizado filepath) = Some Unchanged"
| "line_result (ErroAoProcessar filepath e) = Some (Failed e)"
| "line_result _ = None"


definition results :: "line list \<Rightarrow> processing_result list" where
  "results out = List.map_filter line_result out"




section \<open>The engine on examples\<close>

text \<open>
  The model on patterns with repetition, alternation and empty matches; the expected
  texts are those CPython 3.11 gives for the same calls.
\<close>

lemma re_sub_star_example:
  "re_sub (str ''x*'') (str ''-'') (str ''abxd'') = Inr (str ''-a-b--d-'')"
  by code_simp

lemma re_sub_alternation_example:
  "re_sub (str ''x*|b'') (str ''-'') (str ''abxd'') = Inr (str ''-a----d-'')"
  by code_simp

lemma re_sub_optional_example:
  "re_sub (str ''a?b+'') (str ''_'') (str ''aabbbcb'') = Inr (str ''a_c_'')"
  by code_simp

lemma re_sub_dot_example:
  "re_sub (str ''a.c|b'') (str ''<>'') (str ''xabcbb'') = Inr (str ''x<><><>'')"
  by code_simp

lemma re_sub_multiple_repeat_example:
  "re_sub (str ''a**'') (str ''-'') (str ''ab'') = Inl MultipleRepeat"
  by code_simp

lemma re_sub_nothing_to_repeat_example:
  "re_sub (str ''*a'') (str ''-'') (str ''ab'') = Inl NothingToRepeat"
  by code_simp

section \<open>Plain patterns are matched literally\<close>

lemma parse_branches_plain:
  "set p \<inter> set SPECIAL_CHARS = {} \<Longrightarrow>
     parse_branches acc fin p = Inr (rev ((rev acc @ lits p) # fin))"
  by (induction p arbitrary: acc) (auto simp: lits_def)

lemma re_compile_plain:
  "set p \<inter> set SPECIAL_CHARS = {} \<Longrightarrow> re_compile p = Inr [lits p]"
  by (simp add: re_compile_def parse_branches_plain)

lemma match_items_lits:
  "match_items (lits p) s = (if prefix p s then [length p] else [])"
proof (induction p arbitrary: s)
  case Nil
  then show ?case by (simp add: lits_def)
next
  case (Cons c p)
  then show ?case by (cases s) (auto simp: lits_def)
qed

lemma match_at_lits:
  "p \<noteq> [] \<Longrightarrow>
     match_at [lits p] must_advance s = (if prefix p s then Some (length p) else None)"
  by (simp add: match_at_def match_regex_def match_items_lits)

lemma search_lits_must: "p \<noteq> [] \<Longrightarrow> search [lits p] must_advance s = search [lits p] False s"
  by (simp add: search.simps [of _ must_advance s] search.simps [of _ False s] match_at_lits)

lemma sub_loop_lits:
  "p \<noteq> [] \<Longrightarrow> sub_loop [lits p] repl must_advance s = str_replace p repl s"
proof (induction p repl s arbitrary: must_advance rule: str_replace.induct)
  case (1 old new s)
  note ne = \<open>old \<noteq> []\<close>
  show ?case
  proof (cases "prefix old s")
    case True
    then have "search [lits old] must_advance s = Some (0, length old)"
      using ne by (simp add: search.simps [of _ must_advance s] match_at_lits)
    then have "sub_loop [lits old] new must_advance s =
        new @ sub_loop [lits old] new False (drop (length old) s)"
      using ne by (simp add: sub_loop.simps [of _ new must_advance s])
    also have "\<dots> = new @ str_replace old new (drop (length old) s)"
      using "1.IH"(1) [OF ne True ne] by simp
    also have "\<dots> = str_replace old new s"
      using ne True by (simp add: str_replace.simps [of old new s])
    finally show ?thesis .
  next
    case False
    show ?thesis
    proof (cases s)
      case Nil
      then show ?thesis
        using ne False
        by (simp add: sub_loop.simps [of _ new must_advance "[]"]
              search.simps [of _ must_advance "[]"] match_at_lits
              str_replace.simps [of old new "[]"])
    next
      case (Cons c cs)
      have IH: "sub_loop [lits old] new False cs = str_replace old new cs"
        using "1.IH"(2) [OF ne False Cons ne] .
      have srch: "search [lits old] must_advance s =
          map_option (\<lambda>(b, n). (Suc b, n)) (search [lits old] False cs)"
        using ne False Cons by (simp add: search.simps [of _ must_advance "c # cs"] match_at_lits)
      have "sub_loop [lits old] new must_advance s = c # sub_loop [lits old] new False cs"
      proof (cases "search [lits old] False cs")
        case None
        then show ?thesis
          using srch Cons
          by (simp add: sub_loop.simps [of _ new must_advance "c # cs"]
                sub_loop.simps [of _ new False cs])
      next
        case (Some bn)
        then show ?thesis
          using srch Cons
          by (cases bn) (simp add: sub_loop.simps [of _ new must_advance "c # cs"]
                sub_loop.simps [of _ new False cs])
      qed
      then show ?thesis
        using IH ne False Cons by (simp add: str_replace.simps [of old new "c # cs"])
    qed
  qed
qed


lemma re_sub_plain:
  assumes "plain_rule (old, new)"
  shows "re_sub old new s = Inr (str_replace old new s)"
proof -
  from assms have ne: "old \<noteq> []" and sp: "set old \<inter> set SPECIAL_CHARS = {}"
    and bs: "of_char (CHR 0x5C) \<notin> set new"
    by (auto simp: plain_rule_def list_all_iff)
  show ?thesis
    using bs by (simp add: re_sub_def re_compile_plain [OF sp] expand_template_def
        sub_loop_lits [OF ne])
qed

lemma apply_replacements_plain:
  "list_all plain_rule rules \<Longrightarrow> apply_replacements rules s = Inr (literal_pass rules s)"
  by (induction rules s rule: literal_pass.induct) (simp_all add: re_sub_plain)

lemma REPLACEMENTS_plain: "list_all plain_rule REPLACEMENTS"
  by (simp add: REPLACEMENTS_def plain_rule_def SPECIAL_CHARS_def str_def)

lemma transform_literal: "apply_replacements REPLACEMENTS s = Inr (literal_pass REPLACEMENTS s)"
  by (rule apply_replacements_plain [OF REPLACEMENTS_plain])

section \<open>Literal replacement meets its specification\<close>

lemma str_replace_no_occurrence:
  "old \<noteq> [] \<Longrightarrow> \<not> sublist old s \<Longrightarrow> str_replace old new s = s"
proof (induction s)
  case Nil
  then show ?case by (simp add: str_replace.simps [of old new "[]"])
next
  case (Cons c cs)
  from Cons.prems(2) have np: "\<not> prefix old (c # cs)" and "\<not> sublist old cs"
    by (simp_all add: sublist_Cons_right)
  with Cons.IH Cons.prems have "str_replace old new cs = cs" by simp
  with np Cons.prems show ?case by (simp add: str_replace.simps [of old new "c # cs"])
qed

lemma str_replace_leftmost:
  assumes "old \<noteq> []"
    and "\<And>a' b'. a @ old @ b = a' @ old @ b' \<Longrightarrow> length a \<le> length a'"
  shows "str_replace old new (a @ old @ b) = a @ new @ str_replace old new b"
  using assms(2)
proof (induction a)
  case Nil
  show ?case using assms(1) by (simp add: str_replace.simps [of old new "old @ b"])
next
  case (Cons c a)
  have np: "\<not> prefix old ((c # a) @ old @ b)"
  proof
    assume "prefix old ((c # a) @ old @ b)"
    then obtain b' where "(c # a) @ old @ b = [] @ old @ b'" by (auto simp: prefix_def)
    from Cons.prems [OF this] show False by simp
  qed
  have "str_replace old new (a @ old @ b) = a @ new @ str_replace old new b"
  proof (rule Cons.IH)
    fix a' b' assume "a @ old @ b = a' @ old @ b'"
    then have "(c # a) @ old @ b = (c # a') @ old @ b'" by simp
    from Cons.prems [OF this] show "length a \<le> length a'" by simp
  qed
  with np assms(1) show ?case
    by (simp add: str_replace.simps [of old new "c # a @ old @ b"])
qed

lemma replaces_all_unique:
  "replaces_all old new s t \<Longrightarrow> old \<noteq> [] \<Longrightarrow> t = str_replace old new s"
proof (induction rule: replaces_all.induct)
  case (no_occurrence s)
  then show ?case by (simp add: str_replace_no_occurrence)
next
  case (leftmost_occurrence a b t)
  have "str_replace old new (a @ old @ b) = a @ new @ str_replace old new b"
    using leftmost_occurrence.prems leftmost_occurrence.hyps(1)
    by (rule str_replace_leftmost)
  with leftmost_occurrence.IH leftmost_occurrence.prems show ?case by simp
qed

lemma leftmost_split:
  assumes "sublist old s"
  shows "\<exists>a b. s = a @ old @ b \<and> (\<forall>a' b'. s = a' @ old @ b' \<longrightarrow> length a \<le> length a')"
proof -
  define P where "P n \<longleftrightarrow> (\<exists>a b. s = a @ old @ b \<and> length a = n)" for n
  from assms have "\<exists>n. P n" by (auto simp: sublist_def P_def)
  then have "P (LEAST n. P n)" by (rule LeastI_ex)
  then obtain a b where ab: "s = a @ old @ b" and la: "length a = (LEAST n. P n)"
    by (auto simp: P_def)
  have "length a \<le> length a'" if "s = a' @ old @ b'" for a' b'
  proof -
    from that have "P (length a')" by (auto simp: P_def)
    then have "(LEAST n. P n) \<le> length a'" by (rule Least_le)
    with la show ?thesis by simp
  qed
  with ab show ?thesis by blast
qed

lemma replaces_all_str_replace:
  "old \<noteq> [] \<Longrightarrow> replaces_all old new s (str_replace old new s)"
proof (induction "length s" arbitrary: s rule: less_induct)
  case less
  show ?case
  proof (cases "sublist old s")
    case False
    with less.prems show ?thesis
      by (simp add: str_replace_no_occurrence replaces_all.no_occurrence)
  next
    case True
    from leftmost_split [OF True] obtain a b where ab: "s = a @ old @ b"
      and lm: "\<forall>a' b'. s = a' @ old @ b' \<longrightarrow> length a \<le> length a'"
      by blast
    have lm': "length a \<le> length a'" if "a @ old @ b = a' @ old @ b'" for a' b'
      using lm that unfolding ab by blast
    from ab less.prems have "length b < length s" by simp
    then have "replaces_all old new b (str_replace old new b)"
      using less.hyps less.prems by blast
    with lm' have "replaces_all old new (a @ old @ b) (a @ new @ str_replace old new b)"
      by (rule replaces_all.leftmost_occurrence)
    moreover have "str_replace old new (a @ old @ b) = a @ new @ str_replace old new b"
      using less.prems lm' by (rule str_replace_leftmost)
    ultimately show ?thesis unfolding ab by simp
  qed
qed

lemma replaces_all_iff:
  "old \<noteq> [] \<Longrightarrow> replaces_all old new s t \<longleftrightarrow> t = str_replace old new s"
  using replaces_all_unique [of old new s t] replaces_all_str_replace [of old new s] by blast

inductive_simps one_pass_Nil: "one_pass [] s t"
inductive_simps one_pass_Cons: "one_pass (rule # rules) s t"

lemma one_pass_iff:
  "list_all (\<lambda>(old, new). old \<noteq> []) rules \<Longrightarrow> one_pass rules s t \<longleftrightarrow> t = literal_pass rules s"
proof (induction rules s arbitrary: t rule: literal_pass.induct)
  case (1 content)
  show ?case by (auto simp: one_pass_Nil)
next
  case (2 old new rules content)
  then have ne: "old \<noteq> []" and rest: "list_all (\<lambda>(old, new). old \<noteq> []) rules" by auto
  have "one_pass ((old, new) # rules) content t \<longleftrightarrow>
      (\<exists>u. replaces_all old new content u \<and> one_pass rules u t)"
    by (simp add: one_pass_Cons)
  also have "\<dots> \<longleftrightarrow> one_pass rules (str_replace old new content) t"
    by (simp add: replaces_all_iff [OF ne])
  also have "\<dots> \<longleftrightarrow> t = literal_pass rules (str_replace old new content)"
    using "2.IH" [OF rest] .
  finally show ?case by simp
qed


lemma REPLACEMENTS_nonempty: "list_all (\<lambda>(old, new). old \<noteq> []) REPLACEMENTS"
  using REPLACEMENTS_plain by (simp add: list_all_iff plain_rule_def split_beta)


section \<open>Evaluating one pass\<close>

lemma pass_bg_gray_50:
  "literal_pass REPLACEMENTS (str ''bg-gray-50'') = str ''bg-white/5/5''"
  by code_simp

lemma pass_Card:
  \<open>literal_pass REPLACEMENTS (str ''<Card>'') =
     str ''<Card className="bg-white/5/5 backdrop-blur-sm border-white/10 bg-white/5/5 backdrop-blur-sm border-white/10">''\<close>
  by code_simp

lemma pass_div:
  \<open>literal_pass REPLACEMENTS (str ''<div className="bg-gray-50 border-gray-200">'') =
     str ''<div className="bg-white/5/5 border-white/10">''\<close>
  by code_simp

lemma pass_bg_white: "literal_pass REPLACEMENTS (str ''bg-white'') = str ''bg-white/5''"
  by code_simp

lemma pass_bg_white_5: "literal_pass REPLACEMENTS (str ''bg-white/5'') = str ''bg-white/5/5''"
  by code_simp



lemma str_neq_1: "str ''bg-white/5'' \<noteq> str ''bg-white''"
  by (simp add: str_def)

lemma str_neq_2: "str ''bg-white/5/5'' \<noteq> str ''bg-white/5''"
  by (simp add: str_def)

section \<open>Printing\<close>

lemma can_print_utf_8: "can_print utf_8 l"
  by (simp add: can_print_def list_all_iff utf_8_def)

lemma of_char_less_256: "(of_char c :: nat) < 256"
proof -
  have "(of_char c :: nat) mod 256 < 256" by simp
  then show ?thesis by (simp only: of_char_mod_256)
qed

lemma latin_1_str: "list_all latin_1 (str cs)"
  by (simp add: list_all_iff str_def latin_1_def of_char_less_256)


lemma latin_1_JaEstaAtualizado: "can_print latin_1 (JaEstaAtualizado filepath)"
  by (simp add: can_print_def latin_1_str) (simp add: latin_1_def)




lemma latin_1_Concluido: "\<not> can_print latin_1 (Concluido updated)"
  by (simp add: can_print_def latin_1_def)

section \<open>Processing one file\<close>

lemma read_text_Some:
  "fs filepath = Some f \<Longrightarrow> readable f \<Longrightarrow> data f = Text s \<Longrightarrow> read_text fs filepath = Inr s"
  by (simp add: read_text_def)

lemma read_text_InrD:
  "read_text fs filepath = Inr s \<Longrightarrow> \<exists>f. fs filepath = Some f \<and> readable f \<and> data f = Text s"
  by (auto simp: read_text_def split: option.splits if_splits file_data.splits)

lemma apply_dark_theme_silent:
  "\<not> can_print enc (Processando filepath) \<Longrightarrow>
     apply_dark_theme enc fs filepath = (Inl UnicodeEncodeError, fs, [])"
  by (simp add: apply_dark_theme_def)

lemma apply_dark_theme_Inl:
  "can_print enc (Processando filepath) \<Longrightarrow> read_text fs filepath = Inl e \<Longrightarrow>
     apply_dark_theme enc fs filepath =
       (if can_print enc (ErroAoProcessar filepath e)
        then (Inr False, fs, [Processando filepath, ErroAoProcessar filepath e])
        else (Inl UnicodeEncodeError, fs, [Processando filepath]))"
  by (simp add: apply_dark_theme_def try_block_def)

lemma apply_dark_theme_unchanged:
  "can_print enc (Processando filepath) \<Longrightarrow> read_text fs filepath = Inr s \<Longrightarrow>
   literal_pass REPLACEMENTS s = s \<Longrightarrow>
     apply_dark_theme enc fs filepath =
       (if can_print enc (JaEstaAtualizado filepath)
        then (Inr False, fs, [Processando filepath, JaEstaAtualizado filepath])
        else if can_print enc (ErroAoProcessar filepath UnicodeEncodeError)
        then (Inr False, fs,
              [Processando filepath, ErroAoProcessar filepath UnicodeEncodeError])
        else (Inl UnicodeEncodeError, fs, [Processando filepath]))"
  by (simp add: apply_dark_theme_def try_block_def transform_literal)

lemma apply_dark_theme_changed:
  "can_print enc (Processando filepath) \<Longrightarrow> read_text fs filepath = Inr s \<Longrightarrow>
   literal_pass REPLACEMENTS s \<noteq> s \<Longrightarrow>
   write_text fs filepath (literal_pass REPLACEMENTS s) = (fs', w) \<Longrightarrow>
     apply_dark_theme enc fs filepath =
       (case w of
          Some e \<Rightarrow>
            if can_print enc (ErroAoProcessar filepath e)
            then (Inr False, fs', [Processando filepath, ErroAoProcessar filepath e])
            else (Inl UnicodeEncodeError, fs', [Processando filepath])
        | None \<Rightarrow>
            if can_print enc (AtualizadoComSucesso filepath)
            then (Inr True, fs', [Processando filepath, AtualizadoComSucesso filepath])
            else if can_print enc (ErroAoProcessar filepath UnicodeEncodeError)
            then (Inr False, fs',
                  [Processando filepath, ErroAoProcessar filepath UnicodeEncodeError])
            else (Inl UnicodeEncodeError, fs', [Processando filepath]))"
  by (cases w) (simp_all add: apply_dark_theme_def try_block_def transform_literal)




section \<open>Processing a batch\<close>













section \<open>The claims\<close>

text \<open>
  C1. For the text \<open><Card>\<close> one pass should give the \<open>Card\<close> tag with the class
  string injected once, as the replacement of the rule for \<open><Card>\<close> states. The script
  gives something else: the rule for \<open><Card className="\<close> also matches what the rule
  for \<open><Card>\<close> has just written and the rule for \<open>bg-white\<close> matches inside the
  class string, so the pass gives the class string twice, each time with \<open>bg-white/5/5\<close>.
\<close>

theorem Card_class_injected_twice:
  \<open>apply_replacements REPLACEMENTS (str ''<Card>'') =
     Inr (str ''<Card className="bg-white/5/5 backdrop-blur-sm border-white/10 bg-white/5/5 backdrop-blur-sm border-white/10">'')
   \<and> apply_replacements REPLACEMENTS (str ''<Card>'') \<noteq>
     Inr (str ''<Card className="bg-white/5 backdrop-blur-sm border-white/10">'')\<close>
  by (simp add: transform_literal pass_Card) (simp add: str_def)

text \<open>
  C2. For the text \<open><div className="bg-gray-50 border-gray-200">\<close> one pass should
  give \<open><div className="bg-white/5 border-white/10">\<close>. The script gives
  \<open>bg-white/5/5\<close> where the rule for \<open>bg-gray-50\<close> states \<open>bg-white/5\<close>: the later
  rule for \<open>bg-white\<close> rewrites the class the background rule has written.
\<close>

theorem div_background_rewritten_twice:
  \<open>apply_replacements REPLACEMENTS (str ''<div className="bg-gray-50 border-gray-200">'') =
     Inr (str ''<div className="bg-white/5/5 border-white/10">'')
   \<and> apply_replacements REPLACEMENTS (str ''<div className="bg-gray-50 border-gray-200">'') \<noteq>
     Inr (str ''<div className="bg-white/5 border-white/10">'')\<close>
  by (simp add: transform_literal pass_div) (simp add: str_def)

text \<open>
  C3. A second pass should leave the output of a first pass unchanged, and the script
  should report a converted file as up to date. It does not: the text \<open>bg-white\<close>
  becomes \<open>bg-white/5\<close> in one pass and \<open>bg-white/5/5\<close> in the next, and the script
  run on a file that holds the output of one pass writes it again and returns \<open>True\<close>.
\<close>

theorem second_pass_changes_converted_text:
  "apply_replacements REPLACEMENTS (str ''bg-white'') = Inr (str ''bg-white/5'')
   \<and> apply_replacements REPLACEMENTS (str ''bg-white/5'') = Inr (str ''bg-white/5/5'')
   \<and> str ''bg-white/5/5'' \<noteq> str ''bg-white/5''
   \<and> apply_dark_theme utf_8
        [''Servicos.tsx'' \<mapsto> \<lparr>data = Text (str ''bg-white/5''), readable = True, wmode = WriteOk\<rparr>]
        ''Servicos.tsx'' =
       (Inr True,
        [''Servicos.tsx'' \<mapsto> \<lparr>data = Text (str ''bg-white/5/5''), readable = True, wmode = WriteOk\<rparr>],
        [Processando ''Servicos.tsx'', AtualizadoComSucesso ''Servicos.tsx''])"
  by (simp add: transform_literal pass_bg_white pass_bg_white_5 str_neq_2
        apply_dark_theme_def try_block_def can_print_utf_8 read_text_def write_text_def)

text \<open>
  C4. For every input text, the transformation of the script is one pass in the sense of
  the specification: each rule is applied exactly once, in list order; each rule
  replaces the occurrences of its pattern from the left, leftmost first and without
  overlap; each rule works on the text left by the rules before it. The text \<open>t\<close> is
  the result of such a pass on \<open>s\<close> exactly when the script's loop returns \<open>t\<close>.
\<close>

theorem transformation_is_one_pass:
  "one_pass REPLACEMENTS s t \<longleftrightarrow> apply_replacements REPLACEMENTS s = Inr t"
  using one_pass_iff [OF REPLACEMENTS_nonempty, of s t] transform_literal [of s] by auto

theorem transformation_is_one_pass_witness:
  "one_pass REPLACEMENTS (str ''bg-gray-50'') (str ''bg-white/5/5'')"
  using transformation_is_one_pass [of "str ''bg-gray-50''" "str ''bg-white/5/5''"]
  by (simp add: transform_literal pass_bg_gray_50)







text \<open>
  C7. Every pattern of \<open>REPLACEMENTS\<close> behaves as a literal string: for every input
  text, \<open>re.sub\<close> with a rule of the list gives what \<open>str.replace\<close> gives with it,
  and the pass through the regular-expression engine raises no error and gives the text
  that plain literal replacement of each pattern by its replacement gives.
\<close>

theorem re_sub_pass_is_literal_pass:
  "(\<forall>(old, new) \<in> set REPLACEMENTS. re_sub old new s = Inr (str_replace old new s)) \<and>
   apply_replacements REPLACEMENTS s = Inr (literal_pass REPLACEMENTS s)"
proof
  have "list_all plain_rule REPLACEMENTS"
    by (rule REPLACEMENTS_plain)
  then show "\<forall>(old, new) \<in> set REPLACEMENTS. re_sub old new s = Inr (str_replace old new s)"
    by (auto simp: list_all_iff re_sub_plain)
  from \<open>list_all plain_rule REPLACEMENTS\<close>
  show "apply_replacements REPLACEMENTS s = Inr (literal_pass REPLACEMENTS s)"
    by (rule apply_replacements_plain)
qed

theorem re_sub_pass_is_literal_pass_witness:
  "re_sub (str ''bg-white'') (str ''bg-white/5'') (str ''bg-white'') =
     Inr (str_replace (str ''bg-white'') (str ''bg-white/5'') (str ''bg-white''))
   \<and> apply_replacements REPLACEMENTS (str ''bg-white'') = Inr (str ''bg-white/5'')"
proof -
  have "(str ''bg-white'', str ''bg-white/5'') \<in> set REPLACEMENTS"
    by (simp add: REPLACEMENTS_def)
  with re_sub_pass_is_literal_pass [of "str ''bg-white''"] show ?thesis
    by (auto simp: pass_bg_white)
qed




text \<open>
  C9. When opening, reading or decoding the file raises, \<open>apply_dark_theme\<close> writes
  nothing, whatever standard output can encode: the file system after the call is the
  one before it and the call does not return \<open>True\<close>. When the two lines can be
  printed, the call prints the error and returns \<open>False\<close>.
\<close>

theorem read_failure_writes_nothing:
  "read_text fs filepath = Inl e \<Longrightarrow>
     fst (snd (apply_dark_theme enc fs filepath)) = fs \<and>
     fst (apply_dark_theme enc fs filepath) \<noteq> Inr True \<and>
     (can_print enc (Processando filepath) \<and> can_print enc (ErroAoProcessar filepath e) \<longrightarrow>
        apply_dark_theme enc fs filepath =
          (Inr False, fs, [Processando filepath, ErroAoProcessar filepath e]))"
  by (cases "can_print enc (Processando filepath)")
    (simp_all add: apply_dark_theme_silent apply_dark_theme_Inl)

theorem read_failure_writes_nothing_witness:
  "apply_dark_theme utf_8 Map.empty ''Servicos.tsx'' =
     (Inr False, Map.empty,
      [Processando ''Servicos.tsx'', ErroAoProcessar ''Servicos.tsx'' FileNotFoundError])
   \<and> apply_dark_theme utf_8
       [''Servicos.tsx'' \<mapsto> \<lparr>data = Text (str ''bg-white''), readable = False, wmode = WriteOk\<rparr>]
       ''Servicos.tsx'' =
     (Inr False,
      [''Servicos.tsx'' \<mapsto> \<lparr>data = Text (str ''bg-white''), readable = False, wmode = WriteOk\<rparr>],
      [Processando ''Servicos.tsx'', ErroAoProcessar ''Servicos.tsx'' PermissionError])
   \<and> apply_dark_theme utf_8
       [''Servicos.tsx'' \<mapsto> \<lparr>data = Undecodable, readable = True, wmode = WriteOk\<rparr>]
       ''Servicos.tsx'' =
     (Inr False,
      [''Servicos.tsx'' \<mapsto> \<lparr>data = Undecodable, readable = True, wmode = WriteOk\<rparr>],
      [Processando ''Servicos.tsx'', ErroAoProcessar ''Servicos.tsx'' UnicodeDecodeError])
   \<and> fst (snd (apply_dark_theme latin_1
       [''Servicos.tsx'' \<mapsto> \<lparr>data = Undecodable, readable = True, wmode = WriteOk\<rparr>]
       ''Servicos.tsx'')) =
     [''Servicos.tsx'' \<mapsto> \<lparr>data = Undecodable, readable = True, wmode = WriteOk\<rparr>]"
  using
    read_failure_writes_nothing [of Map.empty "''Servicos.tsx''" FileNotFoundError utf_8]
    read_failure_writes_nothing
      [of "[''Servicos.tsx'' \<mapsto> \<lparr>data = Text (str ''bg-white''), readable = False, wmode = WriteOk\<rparr>]"
          "''Servicos.tsx''" PermissionError utf_8]
    read_failure_writes_nothing
      [of "[''Servicos.tsx'' \<mapsto> \<lparr>data = Undecodable, readable = True, wmode = WriteOk\<rparr>]"
          "''Servicos.tsx''" UnicodeDecodeError utf_8]
    read_failure_writes_nothing
      [of "[''Servicos.tsx'' \<mapsto> \<lparr>data = Undecodable, readable = True, wmode = WriteOk\<rparr>]"
          "''Servicos.tsx''" UnicodeDecodeError latin_1]
  by (simp add: read_text_def can_print_utf_8)

text \<open>
  C10, as amended. Take two calls on readable files with equal contents, whatever the
  paths and whatever else the two file systems hold, on a standard output that can
  encode every line. Both compute the same transformed text, and each reports its file
  as up to date exactly when that text equals the content. When the two files also have
  the same write mode, both calls return the same boolean, report the same result and
  leave equal data in their files.
\<close>

theorem same_content_same_decision:
  assumes "fs1 filepath1 = Some f1" and "readable f1" and "data f1 = Text s"
    and "fs2 filepath2 = Some f2" and "readable f2" and "data f2 = Text s"
    and "\<forall>l. can_print enc l"
  shows "\<exists>t. apply_replacements REPLACEMENTS s = Inr t \<and>
     (results (snd (snd (apply_dark_theme enc fs1 filepath1))) = [Unchanged] \<longleftrightarrow> t = s) \<and>
     (results (snd (snd (apply_dark_theme enc fs2 filepath2))) = [Unchanged] \<longleftrightarrow> t = s) \<and>
     (wmode f1 = wmode f2 \<longrightarrow>
        fst (apply_dark_theme enc fs1 filepath1) = fst (apply_dark_theme enc fs2 filepath2) \<and>
        results (snd (snd (apply_dark_theme enc fs1 filepath1))) =
          results (snd (snd (apply_dark_theme enc fs2 filepath2))) \<and>
        map_option data (fst (snd (apply_dark_theme enc fs1 filepath1)) filepath1) =
          map_option data (fst (snd (apply_dark_theme enc fs2 filepath2)) filepath2))"
proof -
  let ?t = "literal_pass REPLACEMENTS s"
  have one: "apply_dark_theme enc fs filepath =
      (if ?t = s then (Inr False, fs, [Processando filepath, JaEstaAtualizado filepath])
       else (case wmode f of
          WriteOk \<Rightarrow> (Inr True, fs(filepath \<mapsto> f\<lparr>data := Text ?t\<rparr>),
                      [Processando filepath, AtualizadoComSucesso filepath])
        | WriteDenied \<Rightarrow> (Inr False, fs,
                      [Processando filepath, ErroAoProcessar filepath PermissionError])
        | WriteFails k \<Rightarrow> (Inr False, fs(filepath \<mapsto> f\<lparr>data := Text (take k ?t)\<rparr>),
                      [Processando filepath, ErroAoProcessar filepath OSError])))"
    if f: "fs filepath = Some f" "readable f" "data f = Text s" for fs filepath f
  proof -
    have p: "can_print enc (Processando filepath)" using assms(7) by simp
    have r: "read_text fs filepath = Inr s" using f by (rule read_text_Some)
    show ?thesis
    proof (cases "?t = s")
      case True
      with assms(7) show ?thesis by (simp add: apply_dark_theme_unchanged [OF p r])
    next
      case False
      obtain fs' w where w: "write_text fs filepath ?t = (fs', w)"
        by (cases "write_text fs filepath ?t") auto
      from w f(1) have "(fs', w) =
          (case wmode f of
             WriteOk \<Rightarrow> (fs(filepath \<mapsto> f\<lparr>data := Text ?t\<rparr>), None)
           | WriteDenied \<Rightarrow> (fs, Some PermissionError)
           | WriteFails k \<Rightarrow> (fs(filepath \<mapsto> f\<lparr>data := Text (take k ?t)\<rparr>), Some OSError))"
        by (simp add: write_text_def)
      with assms(7) False show ?thesis
        by (cases "wmode f") (auto simp: apply_dark_theme_changed [OF p r False w])
    qed
  qed
  have "apply_replacements REPLACEMENTS s = Inr ?t" by (rule transform_literal)
  moreover have "results (snd (snd (apply_dark_theme enc fs1 filepath1))) = [Unchanged] \<longleftrightarrow> ?t = s"
    by (cases "wmode f1")
      (simp_all add: one [of fs1 filepath1 f1, OF assms(1-3)] results_def)
  moreover have "results (snd (snd (apply_dark_theme enc fs2 filepath2))) = [Unchanged] \<longleftrightarrow> ?t = s"
    by (cases "wmode f2")
      (simp_all add: one [of fs2 filepath2 f2, OF assms(4-6)] results_def)
  moreover have "wmode f1 = wmode f2 \<longrightarrow>
        fst (apply_dark_theme enc fs1 filepath1) = fst (apply_dark_theme enc fs2 filepath2) \<and>
        results (snd (snd (apply_dark_theme enc fs1 filepath1))) =
          results (snd (snd (apply_dark_theme enc fs2 filepath2))) \<and>
        map_option data (fst (snd (apply_dark_theme enc fs1 filepath1)) filepath1) =
          map_option data (fst (snd (apply_dark_theme enc fs2 filepath2)) filepath2)"
    using assms(1,3,4,6)
    by (cases "wmode f2")
      (simp_all add: one [of fs1 filepath1 f1, OF assms(1-3)] one [of fs2 filepath2 f2, OF assms(4-6)] results_def)
  ultimately show ?thesis by blast
qed

theorem same_content_same_decision_witness:
  "fst (apply_dark_theme utf_8
      [''Servicos.tsx'' \<mapsto> \<lparr>data = Text (str ''bg-white''), readable = True, wmode = WriteOk\<rparr>]
      ''Servicos.tsx'') =
   fst (apply_dark_theme utf_8
      [''Agendamentos.tsx'' \<mapsto> \<lparr>data = Text (str ''export default''), readable = True, wmode = WriteOk\<rparr>,
       ''Profissionais.tsx'' \<mapsto> \<lparr>data = Text (str ''bg-white''), readable = True, wmode = WriteOk\<rparr>]
      ''Profissionais.tsx'')
   \<and> map_option data (fst (snd (apply_dark_theme utf_8
      [''Servicos.tsx'' \<mapsto> \<lparr>data = Text (str ''bg-white''), readable = True, wmode = WriteOk\<rparr>]
      ''Servicos.tsx'')) ''Servicos.tsx'') =
     map_option data (fst (snd (apply_dark_theme utf_8
      [''Agendamentos.tsx'' \<mapsto> \<lparr>data = Text (str ''export default''), readable = True, wmode = WriteOk\<rparr>,
       ''Profissionais.tsx'' \<mapsto> \<lparr>data = Text (str ''bg-white''), readable = True, wmode = WriteOk\<rparr>]
      ''Profissionais.tsx'')) ''Profissionais.tsx'')"
  using same_content_same_decision [of
      "[''Servicos.tsx'' \<mapsto> \<lparr>data = Text (str ''bg-white''), readable = True, wmode = WriteOk\<rparr>]"
      "''Servicos.tsx''"
      "\<lparr>data = Text (str ''bg-white''), readable = True, wmode = WriteOk\<rparr>"
      "str ''bg-white''"
      "[''Agendamentos.tsx'' \<mapsto> \<lparr>data = Text (str ''export default''), readable = True, wmode = WriteOk\<rparr>,
        ''Profissionais.tsx'' \<mapsto> \<lparr>data = Text (str ''bg-white''), readable = True, wmode = WriteOk\<rparr>]"
      "''Profissionais.tsx''"
      "\<lparr>data = Text (str ''bg-white''), readable = True, wmode = WriteOk\<rparr>"
      utf_8]
  by (auto simp: can_print_utf_8)

text \<open>
  The claim as first stated makes the result depend on the content alone. Two files
  with the same content, one writable and one not, give \<open>True\<close> and \<open>False\<close>.
\<close>

theorem equal_content_different_result_counterexample:
  "read_text
     [''Servicos.tsx'' \<mapsto> \<lparr>data = Text (str ''bg-white''), readable = True, wmode = WriteOk\<rparr>]
     ''Servicos.tsx'' = Inr (str ''bg-white'')
   \<and> read_text
     [''Agendamentos.tsx'' \<mapsto> \<lparr>data = Text (str ''bg-white''), readable = True, wmode = WriteDenied\<rparr>]
     ''Agendamentos.tsx'' = Inr (str ''bg-white'')
   \<and> fst (apply_dark_theme utf_8
     [''Servicos.tsx'' \<mapsto> \<lparr>data = Text (str ''bg-white''), readable = True, wmode = WriteOk\<rparr>]
     ''Servicos.tsx'') = Inr True
   \<and> fst (apply_dark_theme utf_8
     [''Agendamentos.tsx'' \<mapsto> \<lparr>data = Text (str ''bg-white''), readable = True, wmode = WriteDenied\<rparr>]
     ''Agendamentos.tsx'') = Inr False"
  by (simp add: apply_dark_theme_def try_block_def read_text_def write_text_def
        transform_literal pass_bg_white str_neq_1 can_print_utf_8)

end
